theory Spec2Isabelle
  imports Complex_Main
begin

section \<open>The fleet simulator (\<^verbatim>\<open>src/simulator/fleet_simulator.py\<close>)\<close>

text \<open>
  A shallow embedding of the class \<^verbatim>\<open>FreezerSimulator\<close>. Python floats are read as
  real numbers (exact arithmetic, no NaN, no rounding error), Python ints as \<open>int\<close>,
  the two dictionaries of the object as maps keyed by the device id, a pandas data
  frame as the list of its rows in positional order. Exceptions are values of
  \<open>py_error\<close>, returned on the left of a sum.
\<close>

subsection \<open>Data\<close>

datatype py_error = KeyError | IndexError | TypeError

text \<open>One entry of \<^verbatim>\<open>FLEET_CONFIG\<close>.\<close>

record fleet_unit =
  device_id :: string
  location_name :: string
  lat :: real
  lon :: real
  personality :: string
  description :: string

text \<open>
  One row of the data set, with the columns the program reads. The two flags are
  the integers of the CSV file (\<^verbatim>\<open>door_open == 0\<close>, \<^verbatim>\<open>bool(row["door_open"])\<close>).
\<close>

record row =
  T_cab_meas :: real
  T_amb :: real
  door_open_col :: int
  defrost_on_col :: int
  P_comp_W :: real
  N_comp_Hz :: real
  frost_level_col :: real
  COP :: real
  fault_col :: string
  fault_id_col :: int

text \<open>
  The dictionary returned by \<^verbatim>\<open>_get_reading\<close>. Its \<^verbatim>\<open>timestamp\<close> entry is the text
  of the wall clock at the call; it is read from no state of the simulator and is
  left out of the record.
\<close>

record reading =
  sensor_type :: string
  r_device_id :: string
  r_lat :: real
  r_lon :: real
  r_location_name :: string
  temp_cabinet :: real
  temp_ambient :: real
  door_open :: bool
  defrost_on :: bool
  compressor_power_w :: real
  compressor_freq_hz :: real
  frost_level :: real
  cop :: real
  fault :: string
  fault_id :: int

text \<open>The attributes of a \<^verbatim>\<open>FreezerSimulator\<close> object (\<^verbatim>\<open>__init__\<close>).\<close>

record simulator =
  server_url :: string
  csv_path :: string
  df :: "row list option"
  unit_indices :: "string \<rightharpoonup> int"
  unit_data :: "string \<rightharpoonup> row list"

definition SERVER_URL :: string where
  "SERVER_URL = ''http://localhost:4000/api/data''"

definition FLEET_CONFIG :: "fleet_unit list" where
  "FLEET_CONFIG =
    [\<lparr>device_id = ''FREEZER_001'', location_name = ''London'',
      lat = 51.5074, lon = - 0.1278, personality = ''healthy'',
      description = ''The Perfect Freezer - Always stable''\<rparr>,
     \<lparr>device_id = ''FREEZER_002'', location_name = ''Manchester'',
      lat = 53.4808, lon = - 2.2426, personality = ''door_abuser'',
      description = ''The Door Abuser - Frequent door open events''\<rparr>,
     \<lparr>device_id = ''FREEZER_003'', location_name = ''Glasgow'',
      lat = 55.8642, lon = - 4.2518, personality = ''dying_compressor'',
      description = ''The Dying Compressor - Rising temp, failing''\<rparr>,
     \<lparr>device_id = ''FREEZER_004'', location_name = ''Birmingham'',
      lat = 52.4862, lon = - 1.8904, personality = ''frost_builder'',
      description = ''The Frost Builder - High frost, needs defrost''\<rparr>,
     \<lparr>device_id = ''FREEZER_005'', location_name = ''Leeds'',
      lat = 53.8008, lon = - 1.5491, personality = ''energy_hog'',
      description = ''The Energy Hog - High power, low efficiency''\<rparr>]"

definition FreezerSimulator :: "string \<Rightarrow> string \<Rightarrow> simulator" where
  "FreezerSimulator path url =
    \<lparr>server_url = url, csv_path = path, df = None,
     unit_indices = Map.empty, unit_data = Map.empty\<rparr>"

subsection \<open>The random source\<close>

text \<open>
  The module-level generator of \<^verbatim>\<open>random\<close> is a stream of the values its calls will
  return, in the order of the calls: \<open>g 0\<close> is the next one. A call takes the head
  and leaves the tail. What range a value lies in (\<open>[-1, 1]\<close> for
  \<^verbatim>\<open>random.uniform(-1, 1)\<close>, \<open>[0, 1)\<close> for \<^verbatim>\<open>random.random()\<close>) is a hypothesis of the
  theorems that need it.
\<close>

type_synonym rng = "nat \<Rightarrow> real"

definition draw :: "rng \<Rightarrow> real \<times> rng" where
  "draw g = (g 0, (\<lambda>n. g (Suc n)))"

text \<open>
  \<^verbatim>\<open>_add_jitter(value, jitter_pct)\<close>: one draw \<open>u\<close> of \<^verbatim>\<open>random.uniform(-1, 1)\<close>, then
  \<^verbatim>\<open>value + value * jitter_pct * u\<close>. Every call of the program passes
  \<^verbatim>\<open>jitter_pct\<close>, so its default is not modelled.
\<close>

definition add_jitter :: "real \<Rightarrow> real \<Rightarrow> rng \<Rightarrow> real \<times> rng" where
  "add_jitter v jitter_pct g =
    (let (u, g') = draw g;
         jitter = v * jitter_pct * u
     in (v + jitter, g'))"

text \<open>
  Python's \<^verbatim>\<open>round(x, ndigits)\<close> on the real value: the nearest multiple of
  \<open>10 ^ -ndigits\<close>, a tie going to the even one.
\<close>

definition py_round :: "real \<Rightarrow> nat \<Rightarrow> real" where
  "py_round x ndigits =
    (let y = x * 10 ^ ndigits;
         f = \<lfloor>y\<rfloor>;
         d = y - of_int f;
         n = (if d < 1 / 2 then f
              else if 1 / 2 < d then f + 1
              else if even f then f else f + 1)
     in of_int n / 10 ^ ndigits)"

subsection \<open>The Personality Data Selector (\<^verbatim>\<open>_prepare_unit_data\<close>)\<close>

text \<open>
  \<^verbatim>\<open>Series.median()\<close> of pandas: the middle value of the sorted column, the mean of
  the two middle values when the length is even, NaN (here \<open>None\<close>) on an empty column.
\<close>

definition median :: "real list \<Rightarrow> real option" where
  "median xs =
    (let s = sort xs; n = length s
     in if n = 0 then None
        else if odd n then Some (s ! (n div 2))
        else Some ((s ! (n div 2 - 1) + s ! (n div 2)) / 2))"

text \<open>
  The \<^verbatim>\<open>if\<close>/\<^verbatim>\<open>elif\<close> chain of \<^verbatim>\<open>_prepare_unit_data\<close> (lines 88 to 114): the rows kept
  for a personality. A boolean mask keeps the rows in their order;
  \<^verbatim>\<open>reset_index(drop=True)\<close> numbers them from 0 again, which a list does by itself.
  A comparison with NaN is false for every row.
\<close>

definition select_data :: "string \<Rightarrow> row list \<Rightarrow> row list" where
  "select_data p d =
    (if p = ''healthy'' then
       filter (\<lambda>r. fault_col r = ''NORMAL'' \<and> door_open_col r = 0) d
     else if p = ''door_abuser'' then
       filter (\<lambda>r. fault_col r = ''NORMAL'') d
     else if p = ''dying_compressor'' then
       filter (\<lambda>r. fault_col r = ''NORMAL'') d
     else if p = ''frost_builder'' then
       (if length (filter (\<lambda>r. frost_level_col r > 0.1) d) > 100
        then filter (\<lambda>r. frost_level_col r > 0.1) d else d)
     else if p = ''energy_hog'' then
       (let median_power = median (map P_comp_W d);
            above = (\<lambda>r. case median_power of None \<Rightarrow> False | Some m \<Rightarrow> P_comp_W r > m)
        in if length (filter above d) > 100 then filter above d else d)
     else d)"

text \<open>One turn of the loop over \<^verbatim>\<open>FLEET_CONFIG\<close> (lines 85 to 119).\<close>

definition prepare_unit :: "row list \<Rightarrow> fleet_unit \<Rightarrow> simulator \<Rightarrow> simulator" where
  "prepare_unit d unit s =
    (let dat = select_data (personality unit) d
     in s\<lparr>unit_data := (unit_data s)(device_id unit \<mapsto> dat),
          unit_indices := (unit_indices s)(device_id unit \<mapsto> 0)\<rparr>)"

text \<open>
  \<^verbatim>\<open>_prepare_unit_data\<close>. Before \<^verbatim>\<open>load_data\<close> the attribute \<^verbatim>\<open>df\<close> is \<^verbatim>\<open>None\<close> and the
  first subscript raises \<^verbatim>\<open>TypeError\<close>.
\<close>

definition prepare_unit_data :: "simulator \<Rightarrow> py_error + simulator" where
  "prepare_unit_data s =
    (case df s of
       None \<Rightarrow> Inl TypeError
     | Some d \<Rightarrow> Inr (fold (prepare_unit d) FLEET_CONFIG s))"

text \<open>\<^verbatim>\<open>load_data\<close>, given the rows that \<^verbatim>\<open>pd.read_csv\<close> returned.\<close>

definition load_data :: "row list \<Rightarrow> simulator \<Rightarrow> py_error + simulator" where
  "load_data rows s = prepare_unit_data (s\<lparr>df := Some rows\<rparr>)"

subsection \<open>The Reading Cursor (\<^verbatim>\<open>_get_reading\<close>, lines 134 to 143)\<close>

text \<open>
  \<^verbatim>\<open>data.iloc[i]\<close>: a negative position counts from the end, a position out of
  range raises \<^verbatim>\<open>IndexError\<close>.
\<close>

definition iloc :: "row list \<Rightarrow> int \<Rightarrow> py_error + row" where
  "iloc dat i =
    (let n = int (length dat); j = (if i < 0 then n + i else i)
     in if 0 \<le> j \<and> j < n then Inr (dat ! nat j) else Inl IndexError)"

text \<open>
  The two dictionary reads raise \<^verbatim>\<open>KeyError\<close> for a device that was never prepared.
  On exhaustion the stored index is first set to 0, and after the row is read it is
  set to \<open>idx + 1\<close>. The result is the index read, the row and the new state.
\<close>

definition get_reading_cursor ::
    "string \<Rightarrow> simulator \<Rightarrow> py_error + (int \<times> row \<times> simulator)" where
  "get_reading_cursor dev s =
    (case unit_data s dev of
       None \<Rightarrow> Inl KeyError
     | Some dat \<Rightarrow>
        (case unit_indices s dev of
           None \<Rightarrow> Inl KeyError
         | Some idx0 \<Rightarrow>
            (let (idx, s1) =
                   (if idx0 \<ge> int (length dat)
                    then (0, s\<lparr>unit_indices := (unit_indices s)(dev \<mapsto> 0)\<rparr>)
                    else (idx0, s))
             in case iloc dat idx of
                  Inl e \<Rightarrow> Inl e
                | Inr row \<Rightarrow>
                    Inr (idx, row,
                         s1\<lparr>unit_indices := (unit_indices s1)(dev \<mapsto> idx + 1)\<rparr>))))"

subsection \<open>The Reading Synthesizer (\<^verbatim>\<open>_get_reading\<close>, lines 145 to 228)\<close>

text \<open>
  The local variables of \<^verbatim>\<open>_get_reading\<close> are held in a \<open>reading\<close> record, not yet
  rounded: first the values of the row (lines 146 to 155).
\<close>

definition base_reading :: "fleet_unit \<Rightarrow> row \<Rightarrow> reading" where
  "base_reading unit row =
    \<lparr>sensor_type = ''freezer'',
     r_device_id = device_id unit,
     r_lat = lat unit,
     r_lon = lon unit,
     r_location_name = location_name unit,
     temp_cabinet = T_cab_meas row,
     temp_ambient = T_amb row,
     door_open = (door_open_col row \<noteq> 0),
     defrost_on = (defrost_on_col row \<noteq> 0),
     compressor_power_w = P_comp_W row,
     compressor_freq_hz = N_comp_Hz row,
     frost_level = frost_level_col row,
     cop = COP row,
     fault = fault_col row,
     fault_id = fault_id_col row\<rparr>"

text \<open>The base temperature of \<^verbatim>\<open>dying_compressor\<close> (line 179), from the index read.\<close>

definition base_temp :: "int \<Rightarrow> real" where
  "base_temp idx = - 10.0 + (of_int idx / 1000.0)"

text \<open>The personality-specific modifications (lines 158 to 205), draws in program order.\<close>

definition apply_personality :: "string \<Rightarrow> int \<Rightarrow> reading \<Rightarrow> rng \<Rightarrow> reading \<times> rng" where
  "apply_personality p idx v g =
    (if p = ''healthy'' then
       (let (t, g1) = add_jitter (- 18.0) 0.05 g;
            (fl, g2) = add_jitter 0.05 0.1 g1
        in (v\<lparr>temp_cabinet := t, door_open := False, fault := ''NORMAL'',
              fault_id := 0, frost_level := fl\<rparr>, g2))
     else if p = ''door_abuser'' then
       (let (r, g1) = draw g;
            door = (r < 0.3);
            (t, g2) = (if door then add_jitter (- 12.0) 0.1 g1
                       else add_jitter (- 17.0) 0.05 g1)
        in (v\<lparr>door_open := door, temp_cabinet := t, fault := ''NORMAL'',
              fault_id := 0\<rparr>, g2))
     else if p = ''dying_compressor'' then
       (let (t, g1) = add_jitter (min (base_temp idx) 5.0) 0.1 g;
            (pw, g2) = add_jitter 700.0 0.1 g1;
            (fr, g3) = add_jitter 95.0 0.05 g2
        in (if t > - 5
            then v\<lparr>temp_cabinet := t, compressor_power_w := pw,
                   compressor_freq_hz := fr, fault := ''COMPRESSOR_FAIL'', fault_id := 3\<rparr>
            else v\<lparr>temp_cabinet := t, compressor_power_w := pw,
                   compressor_freq_hz := fr, fault := ''NORMAL'', fault_id := 0\<rparr>, g3))
     else if p = ''frost_builder'' then
       (let (t, g1) = add_jitter (- 16.0) 0.05 g;
            (fl, g2) = add_jitter 0.6 0.1 g1;
            fl = min fl 1.0
        in (v\<lparr>temp_cabinet := t, frost_level := fl, fault := ''NORMAL'',
              fault_id := 0\<rparr>, g2))
     else if p = ''energy_hog'' then
       (let (t, g1) = add_jitter (- 17.0) 0.05 g;
            (pw, g2) = add_jitter 650.0 0.1 g1;
            (c, g3) = add_jitter 1.5 0.1 g2
        in (v\<lparr>temp_cabinet := t, compressor_power_w := pw, cop := c,
              fault := ''NORMAL'', fault_id := 0\<rparr>, g3))
     else (v, g))"

text \<open>The last jitter of the two temperatures (lines 208, 209) and the rounding of the
  returned dictionary (lines 211 to 228).\<close>

definition finish_reading :: "reading \<Rightarrow> rng \<Rightarrow> reading \<times> rng" where
  "finish_reading v g =
    (let (t, g1) = add_jitter (temp_cabinet v) 0.01 g;
         (a, g2) = add_jitter (temp_ambient v) 0.02 g1
     in (v\<lparr>temp_cabinet := py_round t 2,
           temp_ambient := py_round a 2,
           compressor_power_w := py_round (compressor_power_w v) 1,
           compressor_freq_hz := py_round (compressor_freq_hz v) 1,
           frost_level := py_round (frost_level v) 3,
           cop := py_round (cop v) 2\<rparr>, g2))"

definition get_reading_synth :: "fleet_unit \<Rightarrow> int \<Rightarrow> row \<Rightarrow> rng \<Rightarrow> reading \<times> rng" where
  "get_reading_synth unit idx row g =
    (let (v, g1) = apply_personality (personality unit) idx (base_reading unit row) g
     in finish_reading v g1)"

text \<open>\<^verbatim>\<open>_get_reading\<close>: the cursor, then the synthesis on the row it read.\<close>

definition get_reading ::
    "fleet_unit \<Rightarrow> rng \<Rightarrow> simulator \<Rightarrow> py_error + (reading \<times> rng \<times> simulator)" where
  "get_reading unit g s =
    (case get_reading_cursor (device_id unit) s of
       Inl e \<Rightarrow> Inl e
     | Inr (idx, row, s') \<Rightarrow>
        (let (rd, g') = get_reading_synth unit idx row g in Inr (rd, g', s')))"

subsection \<open>The sink and the run loop\<close>

text \<open>
  What \<^verbatim>\<open>requests.post\<close> does is the environment's choice: a stream of outcomes, one
  per call. \<^verbatim>\<open>send_reading\<close> is true on status 200 and false on any other status and
  on a \<^verbatim>\<open>RequestException\<close>, which it catches.
\<close>

datatype post_result = Response int | RequestException

type_synonym net = "nat \<Rightarrow> post_result"

definition send_reading :: "reading \<Rightarrow> net \<Rightarrow> bool \<times> net" where
  "send_reading rd nt =
    ((case nt 0 of Response status_code \<Rightarrow> status_code = 200 | RequestException \<Rightarrow> False),
     (\<lambda>n. nt (Suc n)))"

text \<open>
  What a run does to the outside, in order: the iteration banner, a reading sent
  (with the success flag of its status line), the test-mode exit message, a sleep.
\<close>

datatype event = Iteration nat | Sent reading bool | Test_exit | Slept real

text \<open>The body of the loop over the fleet (lines 258 to 266).\<close>

definition run_unit ::
    "fleet_unit \<Rightarrow> rng \<Rightarrow> net \<Rightarrow> simulator \<Rightarrow> py_error + (event \<times> rng \<times> net \<times> simulator)" where
  "run_unit unit g nt s =
    (case get_reading unit g s of
       Inl e \<Rightarrow> Inl e
     | Inr (rd, g', s') \<Rightarrow>
        (let (success, nt') = send_reading rd nt
         in Inr (Sent rd success, g', nt', s')))"

text \<open>The loop over the fleet (line 257); an exception of a unit ends it.\<close>

fun run_units ::
    "fleet_unit list \<Rightarrow> rng \<Rightarrow> net \<Rightarrow> simulator \<Rightarrow>
     py_error + (event list \<times> rng \<times> net \<times> simulator)" where
  "run_units [] g nt s = Inr ([], g, nt, s)"
| "run_units (u # us) g nt s =
    (case run_unit u g nt s of
       Inl e \<Rightarrow> Inl e
     | Inr (ev, g', nt', s') \<Rightarrow>
        (case run_units us g' nt' s' of
           Inl e \<Rightarrow> Inl e
         | Inr (evs, g'', nt'', s'') \<Rightarrow> Inr (ev # evs, g'', nt'', s'')))"



subsection \<open>Sample data\<close>

definition normal_row :: row where
  "normal_row =
    \<lparr>T_cab_meas = - 18, T_amb = 21, door_open_col = 0, defrost_on_col = 0,
     P_comp_W = 300, N_comp_Hz = 50, frost_level_col = 0.05, COP = 2.5,
     fault_col = ''NORMAL'', fault_id_col = 0\<rparr>"

definition fault_row :: row where
  "fault_row =
    \<lparr>T_cab_meas = - 3, T_amb = 21, door_open_col = 1, defrost_on_col = 0,
     P_comp_W = 400, N_comp_Hz = 60, frost_level_col = 0.2, COP = 2,
     fault_col = ''COMPRESSOR_FAIL'', fault_id_col = 3\<rparr>"

definition new_simulator :: simulator where
  "new_simulator = FreezerSimulator ''data.csv'' SERVER_URL"

text \<open>
  The state in which every device of the roster holds the subsequence \<open>d\<close> and the
  cursor \<open>i\<close>.
\<close>

definition fleet_state :: "row list \<Rightarrow> int \<Rightarrow> simulator" where
  "fleet_state d i =
    new_simulator
      \<lparr>df := Some d,
       unit_indices := map_of (map (\<lambda>u. (device_id u, i)) FLEET_CONFIG),
       unit_data := map_of (map (\<lambda>u. (device_id u, d)) FLEET_CONFIG)\<rparr>"

text \<open>
  Two streams of draws for a call of \<open>dying_compressor\<close>: draw 0 jitters the cabinet
  temperature, draws 1 and 2 the power and the frequency, draw 3 is the final jitter
  of the cabinet temperature, draw 4 that of the ambient temperature.
\<close>

definition draws_up :: rng where
  "draws_up = (\<lambda>n. if n = 3 then - 1 else 0)"

definition draws_down :: rng where
  "draws_down = (\<lambda>n. if n = 0 then - 1 / 100 else if n = 3 then 1 else 0)"

subsection \<open>Consecutive calls\<close>

text \<open>
  \<open>n\<close> consecutive calls of \<^verbatim>\<open>_get_reading\<close> for one unit, with the index each call reads
  (the \<^verbatim>\<open>idx\<close> of line 142, computed by the cursor part on the state before the call).
\<close>

fun read_trace ::
    "nat \<Rightarrow> fleet_unit \<Rightarrow> rng \<Rightarrow> simulator \<Rightarrow> py_error + (int list \<times> rng \<times> simulator)" where
  "read_trace 0 u g s = Inr ([], g, s)"
| "read_trace (Suc n) u g s =
    (case get_reading_cursor (device_id u) s of
       Inl e \<Rightarrow> Inl e
     | Inr (idx, row, _) \<Rightarrow>
        (case get_reading u g s of
           Inl e \<Rightarrow> Inl e
         | Inr (rd, g', s') \<Rightarrow>
            (case read_trace n u g' s' of
               Inl e \<Rightarrow> Inl e
             | Inr (idxs, g'', s'') \<Rightarrow> Inr (idx # idxs, g'', s''))))"

text \<open>
  A unit is ready in a state when its subsequence is there and non-empty and its
  cursor is there and not negative (what \<^verbatim>\<open>load_data\<close> leaves for a unit whose
  subsequence is non-empty, and what every later call keeps).
\<close>

definition ready_unit :: "simulator \<Rightarrow> fleet_unit \<Rightarrow> bool" where
  "ready_unit s u =
    (case unit_data s (device_id u) of
       None \<Rightarrow> False
     | Some dat \<Rightarrow>
        dat \<noteq> [] \<and> (case unit_indices s (device_id u) of None \<Rightarrow> False | Some i \<Rightarrow> 0 \<le> i))"

section \<open>Jitter\<close>

lemma add_jitter_value: "fst (add_jitter v p g) = v + v * p * g 0"
  by (simp add: add_jitter_def draw_def)

lemma add_jitter_rest: "snd (add_jitter v p g) = (\<lambda>n. g (Suc n))"
  by (simp add: add_jitter_def draw_def)

text \<open>
  C2, as stated, at a base value the program itself uses: for \<open>v = -18\<close>,
  \<open>p = 0.05\<close> and the draw \<open>u = 0\<close> the output is \<open>-18\<close>, below \<open>v * (1 - p) = -17.1\<close>,
  the lower end of the stated interval.
\<close>

theorem add_jitter_interval_counterexample:
  "fst (add_jitter (- 18) 0.05 (\<lambda>n. 0)) = - 18 \<and>
   (- 18) * (1 - 0.05) = (- 17.1 :: real) \<and>
   \<not> ((- 18) * (1 - 0.05) \<le> fst (add_jitter (- 18) 0.05 (\<lambda>n. 0)))"
  by (simp add: add_jitter_value)

text \<open>
  C2, amended: for every base value \<open>v\<close>, every jitter fraction \<open>p \<ge> 0\<close> and every
  draw \<open>u\<close> in \<open>[-1, 1]\<close>, the output \<open>v + v * p * u\<close> is within \<open>|v| * p\<close> of \<open>v\<close>: it lies
  in \<open>[v * (1 - p), v * (1 + p)]\<close> when \<open>v \<ge> 0\<close> and in \<open>[v * (1 + p), v * (1 - p)]\<close> when
  \<open>v \<le> 0\<close>; when \<open>p = 0\<close> it equals \<open>v\<close>.
\<close>

theorem add_jitter_between:
  assumes "0 \<le> p" and "- 1 \<le> g 0" and "g 0 \<le> 1"
  shows "fst (add_jitter v p g) = v + v * p * g 0 \<and>
         \<bar>fst (add_jitter v p g) - v\<bar> \<le> \<bar>v\<bar> * p \<and>
         (0 \<le> v \<longrightarrow> v * (1 - p) \<le> fst (add_jitter v p g) \<and>
                    fst (add_jitter v p g) \<le> v * (1 + p)) \<and>
         (v \<le> 0 \<longrightarrow> v * (1 + p) \<le> fst (add_jitter v p g) \<and>
                    fst (add_jitter v p g) \<le> v * (1 - p)) \<and>
         (p = 0 \<longrightarrow> fst (add_jitter v p g) = v)"
proof -
  let ?u = "g 0"
  have abs_u: "\<bar>?u\<bar> \<le> 1"
    using assms by (simp add: abs_le_iff)
  have "\<bar>v * p * ?u\<bar> = \<bar>v\<bar> * p * \<bar>?u\<bar>"
    using assms(1) by (simp add: abs_mult)
  also have "\<dots> \<le> \<bar>v\<bar> * p * 1"
    using abs_u assms(1) by (intro mult_left_mono) simp_all
  finally have bound: "\<bar>v * p * ?u\<bar> \<le> \<bar>v\<bar> * p"
    by simp
  have near: "\<bar>fst (add_jitter v p g) - v\<bar> \<le> \<bar>v\<bar> * p"
    using bound by (simp add: add_jitter_value)
  have pos: "v * (1 - p) \<le> fst (add_jitter v p g) \<and> fst (add_jitter v p g) \<le> v * (1 + p)"
    if "0 \<le> v"
    using near that by (simp add: abs_le_iff algebra_simps)
  have neg: "v * (1 + p) \<le> fst (add_jitter v p g) \<and> fst (add_jitter v p g) \<le> v * (1 - p)"
    if "v \<le> 0"
    using near that by (simp add: abs_le_iff algebra_simps)
  show ?thesis
    using near pos neg by (simp add: add_jitter_value)
qed

theorem add_jitter_between_witness:
  "fst (add_jitter (- 18) 0.05 (\<lambda>n. 1 / 2)) = - 18.45 \<and>
   (- 18) * (1 + 0.05) \<le> fst (add_jitter (- 18) 0.05 (\<lambda>n. 1 / 2)) \<and>
   fst (add_jitter (- 18) 0.05 (\<lambda>n. 1 / 2)) \<le> (- 18) * (1 - 0.05) \<and>
   fst (add_jitter 700 0 (\<lambda>n. 1 / 2)) = 700"
  using add_jitter_between [of "0.05" "\<lambda>n. 1 / 2" "- 18"]
    add_jitter_between [of 0 "\<lambda>n. 1 / 2" 700]
  by simp

section \<open>The Selector\<close>

lemma prepare_lookup:
  assumes "u \<in> set FLEET_CONFIG"
  shows "unit_data (fold (prepare_unit d) FLEET_CONFIG s) (device_id u)
           = Some (select_data (personality u) d) \<and>
         unit_indices (fold (prepare_unit d) FLEET_CONFIG s) (device_id u) = Some 0"
  using assms by (auto simp: FLEET_CONFIG_def prepare_unit_def Let_def)

lemma load_data_Inr:
  "load_data d s0 = Inr (fold (prepare_unit d) FLEET_CONFIG (s0\<lparr>df := Some d\<rparr>))"
  by (simp add: load_data_def prepare_unit_data_def)

lemma load_data_lookup:
  assumes "load_data d s0 = Inr s" and "u \<in> set FLEET_CONFIG"
  shows "unit_data s (device_id u) = Some (select_data (personality u) d)"
    and "unit_indices s (device_id u) = Some 0"
  using assms prepare_lookup [of u d "s0\<lparr>df := Some d\<rparr>"] by (simp_all add: load_data_Inr)



lemma select_frost_builder:
  "select_data ''frost_builder'' d =
     (if 100 < length (filter (\<lambda>r. 0.1 < frost_level_col r) d)
      then filter (\<lambda>r. 0.1 < frost_level_col r) d else d)"
  by (simp add: select_data_def)












text \<open>
  C6: for \<open>frost_builder\<close>, if strictly more than 100 rows have a frost level above
  0.1, the subsequence is exactly those rows in their order; with 100 or fewer it is
  the whole data source. \<^verbatim>\<open>load_data\<close> stores it for the device, numbered from 0, with
  the cursor at 0.
\<close>

theorem frost_builder_subsequence:
  "(100 < length (filter (\<lambda>r. 0.1 < frost_level_col r) d)
      \<longrightarrow> select_data ''frost_builder'' d = filter (\<lambda>r. 0.1 < frost_level_col r) d) \<and>
   (length (filter (\<lambda>r. 0.1 < frost_level_col r) d) \<le> 100
      \<longrightarrow> select_data ''frost_builder'' d = d) \<and>
   (load_data d s0 = Inr s \<and> u \<in> set FLEET_CONFIG \<and> personality u = ''frost_builder''
      \<longrightarrow> unit_data s (device_id u) = Some (select_data ''frost_builder'' d) \<and>
          unit_indices s (device_id u) = Some 0)"
  using load_data_lookup [of d s0 s u] by (auto simp: select_frost_builder)

theorem frost_builder_subsequence_witness:
  "select_data ''frost_builder'' (normal_row # replicate 101 fault_row @ [normal_row])
     = replicate 101 fault_row \<and>
   select_data ''frost_builder'' (normal_row # replicate 100 fault_row @ [normal_row])
     = normal_row # replicate 100 fault_row @ [normal_row]"
proof -
  have f: "filter (\<lambda>r. 0.1 < frost_level_col r) (normal_row # replicate n fault_row @ [normal_row])
      = replicate n fault_row" for n
    by (simp add: filter_replicate normal_row_def fault_row_def)
  show ?thesis
    using frost_builder_subsequence [of "normal_row # replicate 101 fault_row @ [normal_row]"]
      frost_builder_subsequence [of "normal_row # replicate 100 fault_row @ [normal_row]"]
    by (simp only: f length_replicate)
qed

section \<open>The Synthesizer\<close>

lemma get_reading_Inr:
  assumes "get_reading u g s = Inr (rd, g', s')"
  shows "\<exists>idx row. get_reading_cursor (device_id u) s = Inr (idx, row, s') \<and>
           rd = fst (get_reading_synth u idx row g) \<and>
           g' = snd (get_reading_synth u idx row g)"
  using assms by (auto simp: get_reading_def split_def Let_def split: sum.splits)

lemma get_reading_of_cursor:
  assumes "get_reading_cursor (device_id u) s = Inr (idx, row, s')"
  shows "get_reading u g s =
           Inr (fst (get_reading_synth u idx row g), snd (get_reading_synth u idx row g), s')"
  using assms by (simp add: get_reading_def split_def Let_def)

lemma synth_healthy:
  assumes "personality u = ''healthy''"
  shows "door_open (fst (get_reading_synth u idx row g)) = False"
    and "fault (fst (get_reading_synth u idx row g)) = ''NORMAL''"
    and "fault_id (fst (get_reading_synth u idx row g)) = 0"
  using assms
  by (simp_all add: get_reading_synth_def apply_personality_def finish_reading_def split_def
      Let_def)

lemma fleet_state_cursor:
  assumes "u \<in> set FLEET_CONFIG" and "0 \<le> i" and "i < int (length d)"
  shows "get_reading_cursor (device_id u) (fleet_state d i) =
           Inr (i, d ! nat i,
                (fleet_state d i)\<lparr>unit_indices := (unit_indices (fleet_state d i))(device_id u \<mapsto> i + 1)\<rparr>)"
  using assms
  by (auto simp: FLEET_CONFIG_def fleet_state_def get_reading_cursor_def iloc_def)

text \<open>
  C8: for personality \<open>healthy\<close>, the synthesized reading has \<open>door_open = false\<close>,
  \<open>fault = NORMAL\<close> and \<open>fault_id = 0\<close>, for every row, cursor index and random draw;
  so has every reading that \<^verbatim>\<open>_get_reading\<close> returns for such a unit.
\<close>

theorem healthy_reading:
  "personality u = ''healthy'' \<longrightarrow>
     (\<not> door_open (fst (get_reading_synth u idx row g)) \<and>
      fault (fst (get_reading_synth u idx row g)) = ''NORMAL'' \<and>
      fault_id (fst (get_reading_synth u idx row g)) = 0) \<and>
     (get_reading u g s = Inr (rd, g', s') \<longrightarrow>
        \<not> door_open rd \<and> fault rd = ''NORMAL'' \<and> fault_id rd = 0)"
proof (intro impI conjI)
  assume h: "personality u = ''healthy''"
  show "\<not> door_open (fst (get_reading_synth u idx row g))"
    using synth_healthy(1) [OF h] by simp
  show "fault (fst (get_reading_synth u idx row g)) = ''NORMAL''"
    by (rule synth_healthy(2) [OF h])
  show "fault_id (fst (get_reading_synth u idx row g)) = 0"
    by (rule synth_healthy(3) [OF h])
  assume "get_reading u g s = Inr (rd, g', s')"
  then obtain i r where rd: "rd = fst (get_reading_synth u i r g)"
    using get_reading_Inr by blast
  show "\<not> door_open rd"
    unfolding rd using synth_healthy(1) [OF h] by simp
  show "fault rd = ''NORMAL''"
    unfolding rd by (rule synth_healthy(2) [OF h])
  show "fault_id rd = 0"
    unfolding rd by (rule synth_healthy(3) [OF h])
qed

theorem healthy_reading_witness:
  "\<exists>rd g' s'. get_reading (FLEET_CONFIG ! 0) (\<lambda>n. 1) (fleet_state [fault_row] 0) = Inr (rd, g', s') \<and>
     \<not> door_open rd \<and> fault rd = ''NORMAL'' \<and> fault_id rd = 0"
proof -
  have p: "personality (FLEET_CONFIG ! 0) = ''healthy''"
    by (simp add: FLEET_CONFIG_def)
  have m: "FLEET_CONFIG ! 0 \<in> set FLEET_CONFIG"
    by (simp add: FLEET_CONFIG_def)
  obtain rd g' s' where
    r: "get_reading (FLEET_CONFIG ! 0) (\<lambda>n. 1) (fleet_state [fault_row] 0) = Inr (rd, g', s')"
    using get_reading_of_cursor [OF fleet_state_cursor [OF m, of 0 "[fault_row]"]] by simp
  have "\<not> door_open rd \<and> fault rd = ''NORMAL'' \<and> fault_id rd = 0"
    using healthy_reading [of "FLEET_CONFIG ! 0" 0 fault_row "\<lambda>n. 1"
        "fleet_state [fault_row] 0" rd g' s'] p r
    by simp
  then show ?thesis
    using r by blast
qed

lemma py_round_le:
  assumes "x * 10 ^ n \<le> of_int k"
  shows "py_round x n \<le> of_int k / 10 ^ n"
proof -
  let ?y = "x * 10 ^ n"
  let ?f = "\<lfloor>?y\<rfloor>"
  let ?d = "?y - of_int ?f"
  let ?r = "if ?d < 1 / 2 then ?f else if 1 / 2 < ?d then ?f + 1
            else if even ?f then ?f else ?f + 1"
  have fk: "?f \<le> k"
    using assms by (simp add: floor_le_iff)
  have "?r \<le> k"
  proof (cases "?f = k")
    case True
    have "of_int ?f \<le> ?y"
      by (rule of_int_floor_le)
    then have "?y = of_int k"
      using assms True by simp
    then have "?d = 0"
      by simp
    then show ?thesis
      using True by simp
  next
    case False
    then have "?f + 1 \<le> k"
      using fk by simp
    then show ?thesis
      by simp
  qed
  then have "(of_int ?r :: real) \<le> of_int k"
    by (simp only: of_int_le_iff)
  then have "(of_int ?r :: real) / 10 ^ n \<le> of_int k / 10 ^ n"
    by (simp add: divide_right_mono)
  then show ?thesis
    by (simp add: py_round_def Let_def)
qed

lemma synth_frost_builder:
  assumes "personality u = ''frost_builder''"
  shows "frost_level (fst (apply_personality (personality u) idx (base_reading u row) g))
           = min (fst (add_jitter 0.6 0.1 (\<lambda>n. g (Suc n)))) 1.0"
    and "frost_level (fst (get_reading_synth u idx row g))
           = py_round (min (fst (add_jitter 0.6 0.1 (\<lambda>n. g (Suc n)))) 1.0) 3"
  using assms
  by (simp_all add: get_reading_synth_def apply_personality_def finish_reading_def split_def
      Let_def add_jitter_rest)

lemma synth_frost_le:
  assumes "personality u = ''frost_builder''"
  shows "frost_level (fst (get_reading_synth u idx row g)) \<le> 1"
proof -
  have "min (fst (add_jitter 0.6 0.1 (\<lambda>n. g (Suc n)))) 1.0 * 10 ^ 3 \<le> of_int 1000"
    by simp
  then have "py_round (min (fst (add_jitter 0.6 0.1 (\<lambda>n. g (Suc n)))) 1.0) 3
               \<le> of_int 1000 / 10 ^ 3"
    by (rule py_round_le)
  then show ?thesis
    by (simp add: synth_frost_builder(2) [OF assms])
qed

text \<open>
  C9: for personality \<open>frost_builder\<close>, the jittered frost level is clamped to at most
  1.0 before it is rounded to 3 places, and the \<open>frost_level\<close> of every synthesized
  reading is at most 1.0, for every row, cursor index and random draw.
\<close>

theorem frost_builder_frost_level:
  "personality u = ''frost_builder'' \<longrightarrow>
     frost_level (fst (apply_personality (personality u) idx (base_reading u row) g))
       = min (fst (add_jitter 0.6 0.1 (\<lambda>n. g (Suc n)))) 1.0 \<and>
     frost_level (fst (get_reading_synth u idx row g))
       = py_round (min (fst (add_jitter 0.6 0.1 (\<lambda>n. g (Suc n)))) 1.0) 3 \<and>
     frost_level (fst (get_reading_synth u idx row g)) \<le> 1.0 \<and>
     (get_reading u g s = Inr (rd, g', s') \<longrightarrow> frost_level rd \<le> 1.0)"
proof (intro impI conjI)
  assume h: "personality u = ''frost_builder''"
  show "frost_level (fst (apply_personality (personality u) idx (base_reading u row) g))
       = min (fst (add_jitter 0.6 0.1 (\<lambda>n. g (Suc n)))) 1.0"
    by (rule synth_frost_builder(1) [OF h])
  show "frost_level (fst (get_reading_synth u idx row g))
       = py_round (min (fst (add_jitter 0.6 0.1 (\<lambda>n. g (Suc n)))) 1.0) 3"
    by (rule synth_frost_builder(2) [OF h])
  show "frost_level (fst (get_reading_synth u idx row g)) \<le> 1.0"
    using synth_frost_le [OF h] by simp
  assume "get_reading u g s = Inr (rd, g', s')"
  then obtain i r where rd: "rd = fst (get_reading_synth u i r g)"
    using get_reading_Inr by blast
  show "frost_level rd \<le> 1.0"
    unfolding rd using synth_frost_le [OF h] by simp
qed

theorem frost_builder_frost_level_witness:
  "frost_level (fst (get_reading_synth (FLEET_CONFIG ! 3) 0 fault_row (\<lambda>n. 1))) = 0.66 \<and>
   frost_level (fst (get_reading_synth (FLEET_CONFIG ! 3) 0 fault_row (\<lambda>n. 1))) \<le> 1.0 \<and>
   (\<exists>rd g' s'. get_reading (FLEET_CONFIG ! 3) (\<lambda>n. 1) (fleet_state [fault_row] 0)
        = Inr (rd, g', s') \<and> frost_level rd \<le> 1.0)"
proof -
  have p: "personality (FLEET_CONFIG ! 3) = ''frost_builder''"
    by (simp add: FLEET_CONFIG_def)
  have m: "FLEET_CONFIG ! 3 \<in> set FLEET_CONFIG"
    by (simp add: FLEET_CONFIG_def)
  have v: "py_round (min (fst (add_jitter 0.6 0.1 (\<lambda>n. 1))) 1.0) 3 = 0.66"
    by (simp add: add_jitter_value py_round_def)
  obtain rd g' s' where
    r: "get_reading (FLEET_CONFIG ! 3) (\<lambda>n. 1) (fleet_state [fault_row] 0) = Inr (rd, g', s')"
    using get_reading_of_cursor [OF fleet_state_cursor [OF m, of 0 "[fault_row]"]] by simp
  have t: "frost_level (fst (get_reading_synth (FLEET_CONFIG ! 3) 0 fault_row (\<lambda>n. 1)))
       = py_round (min (fst (add_jitter 0.6 0.1 (\<lambda>n. 1))) 1.0) 3 \<and>
     frost_level (fst (get_reading_synth (FLEET_CONFIG ! 3) 0 fault_row (\<lambda>n. 1))) \<le> 1.0 \<and>
     frost_level rd \<le> 1.0"
    using frost_builder_frost_level [of "FLEET_CONFIG ! 3" 0 fault_row "\<lambda>n. 1"
        "fleet_state [fault_row] 0" rd g' s'] p r
    by simp
  show ?thesis
    using t r v by auto
qed

lemma base_temp_mono: "i \<le> j \<Longrightarrow> min (base_temp i) 5.0 \<le> min (base_temp j) 5.0"
  by (simp add: base_temp_def min_def)

lemma base_temp_cap: "15000 \<le> i \<Longrightarrow> min (base_temp i) 5.0 = 5.0"
  by (simp add: base_temp_def min_def)

lemma synth_dying:
  assumes "personality u = ''dying_compressor''"
  shows "temp_cabinet (fst (apply_personality (personality u) idx (base_reading u row) g))
           = fst (add_jitter (min (base_temp idx) 5.0) 0.1 g)"
    and "fault (fst (get_reading_synth u idx row g))
           = (if - 5 < fst (add_jitter (min (base_temp idx) 5.0) 0.1 g)
              then ''COMPRESSOR_FAIL'' else ''NORMAL'')"
    and "fault_id (fst (get_reading_synth u idx row g))
           = (if - 5 < fst (add_jitter (min (base_temp idx) 5.0) 0.1 g) then 3 else 0)"
    and "temp_cabinet (fst (get_reading_synth u idx row g))
           = py_round (fst (add_jitter (fst (add_jitter (min (base_temp idx) 5.0) 0.1 g)) 0.01
                              (\<lambda>n. g (n + 3)))) 2"
  using assms
  by (simp_all add: get_reading_synth_def apply_personality_def finish_reading_def split_def
      Let_def add_jitter_rest add_jitter_value numeral_3_eq_3)

text \<open>
  C4: for personality \<open>dying_compressor\<close>, the base temperature
  \<open>min (-10.0 + index / 1000.0) 5.0\<close> does not decrease as the index grows and is capped
  at 5.0 (reached from index 15000 on); in every call, if the jittered cabinet
  temperature exceeds \<open>-5.0\<close> the fault label is \<open>COMPRESSOR_FAIL\<close> and the fault id 3,
  otherwise they are \<open>NORMAL\<close> and 0.
\<close>

theorem dying_compressor_fault:
  "(i \<le> j \<longrightarrow> min (base_temp i) 5.0 \<le> min (base_temp j) 5.0) \<and>
   min (base_temp i) 5.0 \<le> 5.0 \<and>
   (15000 \<le> i \<longrightarrow> min (base_temp i) 5.0 = 5.0) \<and>
   (personality u = ''dying_compressor'' \<longrightarrow>
      temp_cabinet (fst (apply_personality (personality u) idx (base_reading u row) g))
        = fst (add_jitter (min (base_temp idx) 5.0) 0.1 g) \<and>
      (- 5 < fst (add_jitter (min (base_temp idx) 5.0) 0.1 g) \<longrightarrow>
         fault (fst (get_reading_synth u idx row g)) = ''COMPRESSOR_FAIL'' \<and>
         fault_id (fst (get_reading_synth u idx row g)) = 3) \<and>
      (\<not> - 5 < fst (add_jitter (min (base_temp idx) 5.0) 0.1 g) \<longrightarrow>
         fault (fst (get_reading_synth u idx row g)) = ''NORMAL'' \<and>
         fault_id (fst (get_reading_synth u idx row g)) = 0) \<and>
      (get_reading u g s = Inr (rd, g', s') \<longrightarrow>
         (\<exists>k r. get_reading_cursor (device_id u) s = Inr (k, r, s') \<and>
            (- 5 < fst (add_jitter (min (base_temp k) 5.0) 0.1 g) \<longrightarrow>
               fault rd = ''COMPRESSOR_FAIL'' \<and> fault_id rd = 3) \<and>
            (\<not> - 5 < fst (add_jitter (min (base_temp k) 5.0) 0.1 g) \<longrightarrow>
               fault rd = ''NORMAL'' \<and> fault_id rd = 0))))"
proof (intro conjI impI)
  show "min (base_temp i) 5.0 \<le> 5.0"
    by simp
  show "min (base_temp i) 5.0 \<le> min (base_temp j) 5.0" if "i \<le> j"
    using that by (rule base_temp_mono)
  show "min (base_temp i) 5.0 = 5.0" if "15000 \<le> i"
    using that by (rule base_temp_cap)
next
  assume h: "personality u = ''dying_compressor''"
  show "temp_cabinet (fst (apply_personality (personality u) idx (base_reading u row) g))
        = fst (add_jitter (min (base_temp idx) 5.0) 0.1 g)"
    by (rule synth_dying(1) [OF h])
  {
    assume hot: "- 5 < fst (add_jitter (min (base_temp idx) 5.0) 0.1 g)"
    show "fault (fst (get_reading_synth u idx row g)) = ''COMPRESSOR_FAIL''"
      using hot by (simp only: synth_dying(2) [OF h] if_True)
    show "fault_id (fst (get_reading_synth u idx row g)) = 3"
      using hot by (simp only: synth_dying(3) [OF h] if_True)
  }
  {
    assume cold: "\<not> - 5 < fst (add_jitter (min (base_temp idx) 5.0) 0.1 g)"
    show "fault (fst (get_reading_synth u idx row g)) = ''NORMAL''"
      using cold by (simp only: synth_dying(2) [OF h] if_False)
    show "fault_id (fst (get_reading_synth u idx row g)) = 0"
      using cold by (simp only: synth_dying(3) [OF h] if_False)
  }
  assume "get_reading u g s = Inr (rd, g', s')"
  then obtain k r where c: "get_reading_cursor (device_id u) s = Inr (k, r, s')"
    and rd: "rd = fst (get_reading_synth u k r g)"
    using get_reading_Inr by blast
  have "(- 5 < fst (add_jitter (min (base_temp k) 5.0) 0.1 g) \<longrightarrow>
               fault rd = ''COMPRESSOR_FAIL'' \<and> fault_id rd = 3) \<and>
            (\<not> - 5 < fst (add_jitter (min (base_temp k) 5.0) 0.1 g) \<longrightarrow>
               fault rd = ''NORMAL'' \<and> fault_id rd = 0)"
    unfolding rd by (simp only: synth_dying(2,3) [OF h]) simp
  then show "\<exists>k r. get_reading_cursor (device_id u) s = Inr (k, r, s') \<and>
            (- 5 < fst (add_jitter (min (base_temp k) 5.0) 0.1 g) \<longrightarrow>
               fault rd = ''COMPRESSOR_FAIL'' \<and> fault_id rd = 3) \<and>
            (\<not> - 5 < fst (add_jitter (min (base_temp k) 5.0) 0.1 g) \<longrightarrow>
               fault rd = ''NORMAL'' \<and> fault_id rd = 0)"
    using c by blast
qed

theorem dying_compressor_fault_witness:
  "min (base_temp 0) 5.0 \<le> min (base_temp 6000) 5.0 \<and>
   min (base_temp 20000) 5.0 = 5.0 \<and>
   fst (add_jitter (min (base_temp 6000) 5.0) 0.1 (\<lambda>n. 0)) = - 4 \<and>
   fault (fst (get_reading_synth (FLEET_CONFIG ! 2) 6000 normal_row (\<lambda>n. 0))) = ''COMPRESSOR_FAIL'' \<and>
   fault_id (fst (get_reading_synth (FLEET_CONFIG ! 2) 6000 normal_row (\<lambda>n. 0))) = 3 \<and>
   fst (add_jitter (min (base_temp 0) 5.0) 0.1 (\<lambda>n. 0)) = - 10 \<and>
   fault (fst (get_reading_synth (FLEET_CONFIG ! 2) 0 normal_row (\<lambda>n. 0))) = ''NORMAL'' \<and>
   fault_id (fst (get_reading_synth (FLEET_CONFIG ! 2) 0 normal_row (\<lambda>n. 0))) = 0"
proof -
  have p: "personality (FLEET_CONFIG ! 2) = ''dying_compressor''"
    by (simp add: FLEET_CONFIG_def)
  have hot: "fst (add_jitter (min (base_temp 6000) 5.0) 0.1 (\<lambda>n. 0)) = - 4"
    by (simp add: add_jitter_value base_temp_def)
  have cold: "fst (add_jitter (min (base_temp 0) 5.0) 0.1 (\<lambda>n. 0)) = - 10"
    by (simp add: add_jitter_value base_temp_def)
  show ?thesis
    using dying_compressor_fault [of 0 6000 "FLEET_CONFIG ! 2" 6000 normal_row "\<lambda>n. 0"]
      dying_compressor_fault [of 20000 20000 "FLEET_CONFIG ! 2" 0 normal_row "\<lambda>n. 0"]
      p hot cold
    by simp
qed

text \<open>
  C5: for personality \<open>dying_compressor\<close>, the fault label is decided on the cabinet
  temperature before the final 1 percent jitter, and the emitted \<open>temp_cabinet\<close> is
  the rounded value after it. So at index 5000 (base temperature \<open>-5.0\<close>) there are
  draws for which the emitted \<open>temp_cabinet\<close> exceeds \<open>-5.0\<close> while the fault is
  \<open>NORMAL\<close>, and draws for which it is at most \<open>-5.0\<close> while the fault is
  \<open>COMPRESSOR_FAIL\<close>.
\<close>

theorem dying_compressor_label_before_final_jitter:
  "(personality u = ''dying_compressor'' \<longrightarrow>
      fault (fst (get_reading_synth u idx row g))
        = (if - 5 < fst (add_jitter (min (base_temp idx) 5.0) 0.1 g)
           then ''COMPRESSOR_FAIL'' else ''NORMAL'') \<and>
      temp_cabinet (fst (get_reading_synth u idx row g))
        = py_round (fst (add_jitter (fst (add_jitter (min (base_temp idx) 5.0) 0.1 g)) 0.01
                           (\<lambda>n. g (n + 3)))) 2) \<and>
   (\<exists>rd g' s'. get_reading (FLEET_CONFIG ! 2) draws_up
                  (fleet_state (replicate 5001 normal_row) 5000) = Inr (rd, g', s') \<and>
       - 5 < temp_cabinet rd \<and> fault rd = ''NORMAL'') \<and>
   (\<exists>rd g' s'. get_reading (FLEET_CONFIG ! 2) draws_down
                  (fleet_state (replicate 5001 normal_row) 5000) = Inr (rd, g', s') \<and>
       temp_cabinet rd \<le> - 5 \<and> fault rd = ''COMPRESSOR_FAIL'')"
proof -
  have p: "personality (FLEET_CONFIG ! 2) = ''dying_compressor''"
    by (simp add: FLEET_CONFIG_def)
  have m: "FLEET_CONFIG ! 2 \<in> set FLEET_CONFIG"
    by (simp add: FLEET_CONFIG_def)
  have c: "get_reading_cursor (device_id (FLEET_CONFIG ! 2))
             (fleet_state (replicate 5001 normal_row) 5000)
           = Inr (5000, normal_row,
               (fleet_state (replicate 5001 normal_row) 5000)
                 \<lparr>unit_indices := (unit_indices (fleet_state (replicate 5001 normal_row) 5000))
                     (device_id (FLEET_CONFIG ! 2) \<mapsto> 5000 + 1)\<rparr>)"
    using fleet_state_cursor [OF m, of 5000 "replicate 5001 normal_row"] by simp
  have b: "base_temp 5000 = - 5"
    by (simp add: base_temp_def)
  have up_f: "fault (fst (get_reading_synth (FLEET_CONFIG ! 2) 5000 normal_row draws_up))
                = ''NORMAL''"
    by (simp add: synth_dying(2) [OF p] b add_jitter_value draws_up_def)
  have up_t: "temp_cabinet (fst (get_reading_synth (FLEET_CONFIG ! 2) 5000 normal_row draws_up))
                = - 4.95"
    by (simp add: synth_dying(4) [OF p] b add_jitter_value draws_up_def py_round_def)
  have down_f: "fault (fst (get_reading_synth (FLEET_CONFIG ! 2) 5000 normal_row draws_down))
                = ''COMPRESSOR_FAIL''"
    by (simp add: synth_dying(2) [OF p] b add_jitter_value draws_down_def)
  have down_t: "temp_cabinet (fst (get_reading_synth (FLEET_CONFIG ! 2) 5000 normal_row draws_down))
                = - 5.04"
    by (simp add: synth_dying(4) [OF p] b add_jitter_value draws_down_def py_round_def)
  have up: "\<exists>rd g' s'. get_reading (FLEET_CONFIG ! 2) draws_up
                  (fleet_state (replicate 5001 normal_row) 5000) = Inr (rd, g', s') \<and>
       - 5 < temp_cabinet rd \<and> fault rd = ''NORMAL''"
    using get_reading_of_cursor [OF c, of draws_up] up_f up_t by simp
  have down: "\<exists>rd g' s'. get_reading (FLEET_CONFIG ! 2) draws_down
                  (fleet_state (replicate 5001 normal_row) 5000) = Inr (rd, g', s') \<and>
       temp_cabinet rd \<le> - 5 \<and> fault rd = ''COMPRESSOR_FAIL''"
    using get_reading_of_cursor [OF c, of draws_down] down_f down_t by simp
  have gen: "fault (fst (get_reading_synth u idx row g))
        = (if - 5 < fst (add_jitter (min (base_temp idx) 5.0) 0.1 g)
           then ''COMPRESSOR_FAIL'' else ''NORMAL'') \<and>
      temp_cabinet (fst (get_reading_synth u idx row g))
        = py_round (fst (add_jitter (fst (add_jitter (min (base_temp idx) 5.0) 0.1 g)) 0.01
                           (\<lambda>n. g (n + 3)))) 2"
    if "personality u = ''dying_compressor''"
    using synth_dying(2) [OF that] synth_dying(4) [OF that] by simp
  show ?thesis
    using gen up down by blast
qed

theorem dying_compressor_label_before_final_jitter_witness:
  "fault (fst (get_reading_synth (FLEET_CONFIG ! 2) 5000 normal_row draws_up)) = ''NORMAL'' \<and>
   temp_cabinet (fst (get_reading_synth (FLEET_CONFIG ! 2) 5000 normal_row draws_up)) = - 4.95 \<and>
   fault (fst (get_reading_synth (FLEET_CONFIG ! 2) 5000 normal_row draws_down))
     = ''COMPRESSOR_FAIL'' \<and>
   temp_cabinet (fst (get_reading_synth (FLEET_CONFIG ! 2) 5000 normal_row draws_down)) = - 5.04"
proof -
  have p: "personality (FLEET_CONFIG ! 2) = ''dying_compressor''"
    by (simp add: FLEET_CONFIG_def)
  have b: "base_temp 5000 = - 5"
    by (simp add: base_temp_def)
  have up: "fault (fst (get_reading_synth (FLEET_CONFIG ! 2) 5000 normal_row draws_up)) = ''NORMAL'' \<and>
   temp_cabinet (fst (get_reading_synth (FLEET_CONFIG ! 2) 5000 normal_row draws_up)) = - 4.95"
    using dying_compressor_label_before_final_jitter
        [of "FLEET_CONFIG ! 2" 5000 normal_row draws_up, THEN conjunct1, THEN mp, OF p]
    by (simp add: b add_jitter_value draws_up_def py_round_def)
  have down: "fault (fst (get_reading_synth (FLEET_CONFIG ! 2) 5000 normal_row draws_down))
     = ''COMPRESSOR_FAIL'' \<and>
   temp_cabinet (fst (get_reading_synth (FLEET_CONFIG ! 2) 5000 normal_row draws_down)) = - 5.04"
    using dying_compressor_label_before_final_jitter
        [of "FLEET_CONFIG ! 2" 5000 normal_row draws_down, THEN conjunct1, THEN mp, OF p]
    by (simp add: b add_jitter_value draws_down_def py_round_def)
  show ?thesis
    using up down by simp
qed

section \<open>The Cursor\<close>

lemma cursor_step:
  assumes "unit_data s dev = Some dat" and "dat \<noteq> []"
    and "unit_indices s dev = Some i" and "0 \<le> i"
  shows "get_reading_cursor dev s =
           Inr (if int (length dat) \<le> i then 0 else i,
                dat ! nat (if int (length dat) \<le> i then 0 else i),
                s\<lparr>unit_indices := (unit_indices s)
                     (dev \<mapsto> (if int (length dat) \<le> i then 0 else i) + 1)\<rparr>)"
  using assms by (simp add: get_reading_cursor_def iloc_def)

lemma read_trace_Suc:
  assumes "get_reading_cursor (device_id u) s = Inr (k, r, s')"
  shows "read_trace (Suc n) u g s =
           (case read_trace n u (snd (get_reading_synth u k r g)) s' of
              Inl e \<Rightarrow> Inl e
            | Inr (idxs, g'', s'') \<Rightarrow> Inr (k # idxs, g'', s''))"
  using assms by (simp add: get_reading_of_cursor [OF assms])

lemma read_trace_in_range:
  assumes "unit_data s (device_id u) = Some dat"
    and "unit_indices s (device_id u) = Some (int i)"
    and "i + n \<le> length dat"
  shows "\<exists>g' s'. read_trace n u g s = Inr (map int [i..<i + n], g', s') \<and>
           unit_data s' (device_id u) = Some dat \<and>
           unit_indices s' (device_id u) = Some (int (i + n))"
  using assms
proof (induction n arbitrary: i g s)
  case 0
  then show ?case by simp
next
  case (Suc n)
  have ne: "dat \<noteq> []" and lt: "int i < int (length dat)"
    using Suc.prems(3) by auto
  let ?s' = "s\<lparr>unit_indices := (unit_indices s)(device_id u \<mapsto> int i + 1)\<rparr>"
  have c: "get_reading_cursor (device_id u) s = Inr (int i, dat ! i, ?s')"
    using cursor_step [OF Suc.prems(1) ne Suc.prems(2)] lt by simp
  have d: "unit_data ?s' (device_id u) = Some dat"
    using Suc.prems(1) by simp
  have x: "unit_indices ?s' (device_id u) = Some (int (Suc i))"
    by simp
  have b: "Suc i + n \<le> length dat"
    using Suc.prems(3) by simp
  obtain g' s'' where
    t: "read_trace n u (snd (get_reading_synth u (int i) (dat ! i) g)) ?s'
          = Inr (map int [Suc i..<Suc i + n], g', s'')"
    and d': "unit_data s'' (device_id u) = Some dat"
    and x': "unit_indices s'' (device_id u) = Some (int (Suc i + n))"
    using Suc.IH [OF d x b] by blast
  have e: "map int [i..<i + Suc n] = int i # map int [Suc i..<Suc i + n]"
    by (simp add: upt_rec)
  have "read_trace (Suc n) u g s = Inr (int i # map int [Suc i..<Suc i + n], g', s'')"
    by (simp only: read_trace_Suc [OF c] t sum.case prod.case)
  then have "read_trace (Suc n) u g s = Inr (map int [i..<i + Suc n], g', s'')"
    by (simp only: e)
  moreover have "unit_indices s'' (device_id u) = Some (int (i + Suc n))"
    using x' by simp
  ultimately show ?case
    using d' by blast
qed

lemma read_trace_append:
  "read_trace (n + m) u g s =
     (case read_trace n u g s of
        Inl e \<Rightarrow> Inl e
      | Inr (idxs, g', s') \<Rightarrow>
          (case read_trace m u g' s' of
             Inl e \<Rightarrow> Inl e
           | Inr (idxs', g'', s'') \<Rightarrow> Inr (idxs @ idxs', g'', s'')))"
proof (induction n arbitrary: g s)
  case 0
  show ?case by (simp split: sum.splits)
next
  case (Suc n)
  show ?case
    by (simp add: Suc.IH split: sum.splits prod.splits)
qed

lemma read_trace_wrap:
  assumes "unit_data s (device_id u) = Some dat" and "dat \<noteq> []"
    and "unit_indices s (device_id u) = Some (int (length dat))"
  shows "\<exists>g' s'. read_trace 1 u g s = Inr ([0], g', s') \<and>
           unit_data s' (device_id u) = Some dat \<and>
           unit_indices s' (device_id u) = Some 1"
proof -
  let ?s' = "s\<lparr>unit_indices := (unit_indices s)(device_id u \<mapsto> 1)\<rparr>"
  have c: "get_reading_cursor (device_id u) s = Inr (0, dat ! 0, ?s')"
    using cursor_step [OF assms(1) assms(2) assms(3)] by simp
  have "read_trace (Suc 0) u g s = Inr ([0], snd (get_reading_synth u 0 (dat ! 0) g), ?s')"
    by (simp only: read_trace_Suc [OF c] read_trace.simps(1) sum.case prod.case)
  then have "read_trace 1 u g s = Inr ([0], snd (get_reading_synth u 0 (dat ! 0) g), ?s')"
    by simp
  moreover have "unit_data ?s' (device_id u) = Some dat"
    using assms(1) by simp
  moreover have "unit_indices ?s' (device_id u) = Some 1"
    by simp
  ultimately show ?thesis
    by blast
qed

lemma read_trace_inv:
  assumes "unit_data s (device_id u) = Some dat" and "dat \<noteq> []"
    and "unit_indices s (device_id u) = Some i" and "0 \<le> i" and "i \<le> int (length dat)"
  shows "\<exists>idxs g' s' j. read_trace n u g s = Inr (idxs, g', s') \<and>
           unit_data s' (device_id u) = Some dat \<and>
           unit_indices s' (device_id u) = Some j \<and> 0 \<le> j \<and> j \<le> int (length dat)"
  using assms
proof (induction n arbitrary: i g s)
  case 0
  then show ?case by simp
next
  case (Suc n)
  let ?k = "if int (length dat) \<le> i then 0 else i"
  let ?s' = "s\<lparr>unit_indices := (unit_indices s)(device_id u \<mapsto> ?k + 1)\<rparr>"
  have c: "get_reading_cursor (device_id u) s = Inr (?k, dat ! nat ?k, ?s')"
    by (rule cursor_step [OF Suc.prems(1-4)])
  have d: "unit_data ?s' (device_id u) = Some dat"
    using Suc.prems(1) by simp
  have x: "unit_indices ?s' (device_id u) = Some (?k + 1)"
    by simp
  have lo: "0 \<le> ?k + 1"
    using Suc.prems(4) by simp
  have hi: "?k + 1 \<le> int (length dat)"
    using Suc.prems(2,5) by (cases dat) auto
  obtain idxs g' s'' j where
    t: "read_trace n u (snd (get_reading_synth u ?k (dat ! nat ?k) g)) ?s' = Inr (idxs, g', s'')"
    and r: "unit_data s'' (device_id u) = Some dat" "unit_indices s'' (device_id u) = Some j"
      "0 \<le> j" "j \<le> int (length dat)"
    using Suc.IH [OF d Suc.prems(2) x lo hi] by blast
  have "read_trace (Suc n) u g s = Inr (?k # idxs, g', s'')"
    by (simp only: read_trace_Suc [OF c] t sum.case prod.case)
  then show ?case
    using r by blast
qed

text \<open>
  C3: for a device whose subsequence has length \<open>L \<ge> 1\<close> and whose stored index is 0,
  \<open>L\<close> consecutive synthesis calls read the indices \<open>0, 1, ..., L - 1\<close> in order and the
  next call reads index 0 again; no call raises, however many are made, and after
  every call the stored index is between 0 and \<open>L\<close> and the subsequence is as before.
\<close>

theorem cursor_wraps:
  assumes "unit_data s (device_id u) = Some dat" and "dat \<noteq> []"
    and "unit_indices s (device_id u) = Some 0"
  shows "(\<exists>g' s'. read_trace (length dat + 1) u g s
                    = Inr (map int [0..<length dat] @ [0], g', s')) \<and>
         (\<exists>idxs g' s' j. read_trace n u g s = Inr (idxs, g', s') \<and>
            unit_data s' (device_id u) = Some dat \<and>
            unit_indices s' (device_id u) = Some j \<and> 0 \<le> j \<and> j \<le> int (length dat))"
proof
  have z: "unit_indices s (device_id u) = Some (int 0)"
    using assms(3) by simp
  obtain g1 s1 where
    a: "read_trace (length dat) u g s = Inr (map int [0..<0 + length dat], g1, s1)"
    and d1: "unit_data s1 (device_id u) = Some dat"
    and x1: "unit_indices s1 (device_id u) = Some (int (0 + length dat))"
    using read_trace_in_range [OF assms(1) z, of "length dat" g] by auto
  have x1': "unit_indices s1 (device_id u) = Some (int (length dat))"
    using x1 by simp
  obtain g2 s2 where b: "read_trace 1 u g1 s1 = Inr ([0], g2, s2)"
    using read_trace_wrap [OF d1 assms(2) x1', of g1] by blast
  have "read_trace (length dat + 1) u g s = Inr (map int [0..<length dat] @ [0], g2, s2)"
    using a b by (simp only: read_trace_append [of "length dat" 1] sum.case prod.case) simp
  then show "\<exists>g' s'. read_trace (length dat + 1) u g s
                    = Inr (map int [0..<length dat] @ [0], g', s')"
    by blast
next
  show "\<exists>idxs g' s' j. read_trace n u g s = Inr (idxs, g', s') \<and>
            unit_data s' (device_id u) = Some dat \<and>
            unit_indices s' (device_id u) = Some j \<and> 0 \<le> j \<and> j \<le> int (length dat)"
    using read_trace_inv [OF assms(1,2,3)] by simp
qed

theorem cursor_wraps_witness:
  "(\<exists>g' s'. read_trace 4 (FLEET_CONFIG ! 0) (\<lambda>n. 0)
              (fleet_state [normal_row, fault_row, normal_row] 0) = Inr ([0, 1, 2, 0], g', s')) \<and>
   (\<exists>idxs g' s' j. read_trace 7 (FLEET_CONFIG ! 0) (\<lambda>n. 0)
              (fleet_state [normal_row, fault_row, normal_row] 0) = Inr (idxs, g', s') \<and>
        unit_indices s' ''FREEZER_001'' = Some j \<and> 0 \<le> j \<and> j \<le> 3)"
proof -
  let ?d = "[normal_row, fault_row, normal_row]"
  have i: "device_id (FLEET_CONFIG ! 0) = ''FREEZER_001''"
    by (simp add: FLEET_CONFIG_def)
  have d: "unit_data (fleet_state ?d 0) (device_id (FLEET_CONFIG ! 0)) = Some ?d"
    by (simp add: fleet_state_def FLEET_CONFIG_def)
  have x: "unit_indices (fleet_state ?d 0) (device_id (FLEET_CONFIG ! 0)) = Some 0"
    by (simp add: fleet_state_def FLEET_CONFIG_def)
  have ne: "?d \<noteq> []"
    by simp
  have l: "map int [0..<length ?d] @ [0] = [0, 1, 2, 0]"
    by (simp add: upt_rec)
  have n4: "length ?d + 1 = 4" and n3: "int (length ?d) = 3"
    by simp_all
  note w = cursor_wraps [OF d ne x, of "\<lambda>n. 0" 7, unfolded n4 l n3 i]
  show ?thesis
    using w by blast
qed

section \<open>The per-device step and the run loop\<close>

lemma cursor_frame:
  assumes "get_reading_cursor dev s = Inr (k, r, s')"
  shows "s' = s\<lparr>unit_indices := (unit_indices s)(dev \<mapsto> k + 1)\<rparr>"
  using assms
  by (auto simp: get_reading_cursor_def Let_def split: option.splits if_splits sum.splits)

lemma run_unit_Inr:
  assumes "run_unit u g nt s = Inr (ev, g', nt', s')"
  shows "\<exists>k r. get_reading_cursor (device_id u) s = Inr (k, r, s') \<and>
           g' = snd (get_reading_synth u k r g) \<and>
           ev = Sent (fst (get_reading_synth u k r g)) (fst (send_reading (fst (get_reading_synth u k r g)) nt)) \<and>
           nt' = (\<lambda>n. nt (Suc n))"
proof -
  obtain rd where gr: "get_reading u g s = Inr (rd, g', s')"
    and ev: "ev = Sent rd (fst (send_reading rd nt))" and nt: "nt' = snd (send_reading rd nt)"
    using assms by (auto simp: run_unit_def split_def Let_def split: sum.splits)
  obtain k r where c: "get_reading_cursor (device_id u) s = Inr (k, r, s')"
    and rd: "rd = fst (get_reading_synth u k r g)" and g': "g' = snd (get_reading_synth u k r g)"
    using get_reading_Inr [OF gr] by blast
  have "nt' = (\<lambda>n. nt (Suc n))"
    using nt by (simp add: send_reading_def)
  then show ?thesis
    using c rd g' ev by blast
qed

lemma run_unit_of_cursor:
  assumes "get_reading_cursor (device_id u) s = Inr (k, r, s')"
  shows "run_unit u g nt s =
           Inr (Sent (fst (get_reading_synth u k r g))
                  (fst (send_reading (fst (get_reading_synth u k r g)) nt)),
                snd (get_reading_synth u k r g), (\<lambda>n. nt (Suc n)), s')"
  by (simp add: run_unit_def get_reading_of_cursor [OF assms] split_def send_reading_def)

lemma run_unit_Inl: "(run_unit u g nt s = Inl e) = (get_reading u g s = Inl e)"
  by (simp add: run_unit_def split_def Let_def split: sum.splits)

lemma run_units_any_net:
  assumes "run_units us g nt s = Inr (evs, g', nt', s')"
  shows "\<exists>evs2 nt2'. run_units us g nt2 s = Inr (evs2, g', nt2', s') \<and> length evs2 = length us"
  using assms
proof (induction us arbitrary: g nt nt2 s evs)
  case Nil
  then show ?case by simp
next
  case (Cons u us)
  obtain ev g1 nt1 s1 where a: "run_unit u g nt s = Inr (ev, g1, nt1, s1)"
    using Cons.prems by (auto split: sum.splits)
  then obtain evs1 where b: "run_units us g1 nt1 s1 = Inr (evs1, g', nt', s')"
    using Cons.prems by (auto split: sum.splits)
  obtain k r where c: "get_reading_cursor (device_id u) s = Inr (k, r, s1)"
    and g1: "g1 = snd (get_reading_synth u k r g)"
    using run_unit_Inr [OF a] by blast
  have a2: "run_unit u g nt2 s =
      Inr (Sent (fst (get_reading_synth u k r g))
             (fst (send_reading (fst (get_reading_synth u k r g)) nt2)),
           g1, (\<lambda>n. nt2 (Suc n)), s1)"
    unfolding g1 by (rule run_unit_of_cursor [OF c])
  obtain evs2 nt2' where
    b2: "run_units us g1 (\<lambda>n. nt2 (Suc n)) s1 = Inr (evs2, g', nt2', s')"
    and l: "length evs2 = length us"
    using Cons.IH [OF b] by blast
  have "run_units (u # us) g nt2 s =
      Inr (Sent (fst (get_reading_synth u k r g))
             (fst (send_reading (fst (get_reading_synth u k r g)) nt2)) # evs2, g', nt2', s')"
    by (simp add: a2 b2)
  then show ?case
    using l by simp
qed

text \<open>One cycle over the fleet takes the loaded one-row state to the one with every cursor at 1.\<close>

lemma first_cycle:
  "\<exists>evs g' nt'. run_units FLEET_CONFIG g nt (fleet_state [normal_row] 0)
      = Inr (evs, g', nt', fleet_state [normal_row] 1)"
proof -
  have "snd (snd (snd (projr (run_units FLEET_CONFIG g nt (fleet_state [normal_row] 0)))))
          = fleet_state [normal_row] 1 \<and>
        isl (run_units FLEET_CONFIG g nt (fleet_state [normal_row] 0)) = False"
    by (simp add: FLEET_CONFIG_def run_unit_def get_reading_def get_reading_cursor_def iloc_def
        fleet_state_def split_def Let_def send_reading_def fun_eq_iff)
  then show ?thesis
    by (metis prod.collapse sum.collapse(2))
qed

text \<open>
  C7, as stated, at a one-row subsequence whose stored cursor is 1 (the state after
  loading a one-row source and running the first cycle): the call finds the index exhausted, sets it to 0, reads row 0
  and sets it to 1 again. The cursor is written twice and the state after the step
  is the state before it; no piece of state has changed.
\<close>

theorem run_unit_state_unchanged_counterexample:
  "unit_indices (fleet_state [normal_row] 1) ''FREEZER_001'' = Some 1 \<and>
   get_reading_cursor ''FREEZER_001'' (fleet_state [normal_row] 1)
     = Inr (0, normal_row, fleet_state [normal_row] 1) \<and>
   run_unit (FLEET_CONFIG ! 0) (\<lambda>n. 0) (\<lambda>n. Response 200) (fleet_state [normal_row] 1)
     = Inr (Sent (fst (get_reading_synth (FLEET_CONFIG ! 0) 0 normal_row (\<lambda>n. 0))) True,
            snd (get_reading_synth (FLEET_CONFIG ! 0) 0 normal_row (\<lambda>n. 0)),
            (\<lambda>n. Response 200), fleet_state [normal_row] 1)"
proof -
  let ?s = "fleet_state [normal_row] 1"
  have i: "device_id (FLEET_CONFIG ! 0) = ''FREEZER_001''"
    by (simp add: FLEET_CONFIG_def)
  have d: "unit_data ?s ''FREEZER_001'' = Some [normal_row]"
    by (simp add: fleet_state_def FLEET_CONFIG_def)
  have x: "unit_indices ?s ''FREEZER_001'' = Some 1"
    by (simp add: fleet_state_def FLEET_CONFIG_def)
  have same: "(unit_indices ?s)(''FREEZER_001'' \<mapsto> 1) = unit_indices ?s"
    using x by (rule map_upd_triv)
  have "get_reading_cursor ''FREEZER_001'' ?s
          = Inr (0, normal_row, ?s\<lparr>unit_indices := (unit_indices ?s)(''FREEZER_001'' \<mapsto> 1)\<rparr>)"
    using cursor_step [OF d _ x] by simp
  then have c: "get_reading_cursor ''FREEZER_001'' ?s = Inr (0, normal_row, ?s)"
    by (simp only: same simulator.update_convs simulator.surjective) simp
  have c': "get_reading_cursor (device_id (FLEET_CONFIG ! 0)) ?s = Inr (0, normal_row, ?s)"
    using c i by simp
  show ?thesis
    using x c run_unit_of_cursor [OF c', of "\<lambda>n. 0" "\<lambda>n. Response 200"]
    by (simp add: send_reading_def)
qed
text \<open>
  C7, amended: the per-device synthesis-and-transmit step changes no state other than
  the calling device's cursor index, which it leaves at the index read plus one (on
  an exhausted cursor the index is first reset to 0, so with a one-row subsequence
  the step leaves it at 1, where it was); every device's subsequence and every other
  device's cursor are unchanged. The state after the step is the same whatever the
  transmission reports, the step raises only if the reading itself does, and the loop
  over the fleet runs through all its units whatever the transmissions report.
\<close>

theorem run_unit_frame:
  "(run_unit u g nt s = Inr (ev, g', nt', s') \<longrightarrow>
      (\<exists>k r. get_reading_cursor (device_id u) s = Inr (k, r, s') \<and>
             s' = s\<lparr>unit_indices := (unit_indices s)(device_id u \<mapsto> k + 1)\<rparr>) \<and>
      unit_data s' = unit_data s \<and> df s' = df s \<and>
      (\<forall>d. d \<noteq> device_id u \<longrightarrow> unit_indices s' d = unit_indices s d) \<and>
      (\<exists>ev2 nt2'. run_unit u g nt2 s = Inr (ev2, g', nt2', s'))) \<and>
   ((run_unit u g nt s = Inl e) = (get_reading u g s = Inl e)) \<and>
   (run_units us g nt s = Inr (evs, g1, nt1, s1) \<longrightarrow>
      (\<exists>evs2 nt2'. run_units us g nt2 s = Inr (evs2, g1, nt2', s1) \<and>
         length evs2 = length us))"
proof (intro conjI impI)
  assume a: "run_unit u g nt s = Inr (ev, g', nt', s')"
  obtain k r where c: "get_reading_cursor (device_id u) s = Inr (k, r, s')"
    and g': "g' = snd (get_reading_synth u k r g)"
    using run_unit_Inr [OF a] by blast
  have f: "s' = s\<lparr>unit_indices := (unit_indices s)(device_id u \<mapsto> k + 1)\<rparr>"
    by (rule cursor_frame [OF c])
  show "\<exists>k r. get_reading_cursor (device_id u) s = Inr (k, r, s') \<and>
             s' = s\<lparr>unit_indices := (unit_indices s)(device_id u \<mapsto> k + 1)\<rparr>"
    using c f by blast
  show "unit_data s' = unit_data s"
    by (simp add: f)
  show "df s' = df s"
    by (simp add: f)
  show "\<forall>d. d \<noteq> device_id u \<longrightarrow> unit_indices s' d = unit_indices s d"
    by (simp add: f)
  show "\<exists>ev2 nt2'. run_unit u g nt2 s = Inr (ev2, g', nt2', s')"
    using run_unit_of_cursor [OF c, of g nt2] g' by simp
next
  show "(run_unit u g nt s = Inl e) = (get_reading u g s = Inl e)"
    by (rule run_unit_Inl)
next
  assume "run_units us g nt s = Inr (evs, g1, nt1, s1)"
  then show "\<exists>evs2 nt2'. run_units us g nt2 s = Inr (evs2, g1, nt2', s1) \<and>
         length evs2 = length us"
    by (rule run_units_any_net)
qed

theorem run_unit_frame_witness:
  "run_unit (FLEET_CONFIG ! 1) (\<lambda>n. 0) (\<lambda>n. RequestException)
       (fleet_state [normal_row, fault_row] 0)
     = Inr (Sent (fst (get_reading_synth (FLEET_CONFIG ! 1) 0 normal_row (\<lambda>n. 0))) False,
            snd (get_reading_synth (FLEET_CONFIG ! 1) 0 normal_row (\<lambda>n. 0)),
            (\<lambda>n. RequestException),
            (fleet_state [normal_row, fault_row] 0)
              \<lparr>unit_indices := (unit_indices (fleet_state [normal_row, fault_row] 0))
                  (''FREEZER_002'' \<mapsto> 1)\<rparr>) \<and>
   (\<exists>ev2 nt2'. run_unit (FLEET_CONFIG ! 1) (\<lambda>n. 0) (\<lambda>n. Response 200)
       (fleet_state [normal_row, fault_row] 0)
     = Inr (ev2, snd (get_reading_synth (FLEET_CONFIG ! 1) 0 normal_row (\<lambda>n. 0)), nt2',
            (fleet_state [normal_row, fault_row] 0)
              \<lparr>unit_indices := (unit_indices (fleet_state [normal_row, fault_row] 0))
                  (''FREEZER_002'' \<mapsto> 1)\<rparr>))"
proof -
  let ?s = "fleet_state [normal_row, fault_row] 0"
  let ?u = "FLEET_CONFIG ! 1"
  have i: "device_id ?u = ''FREEZER_002''"
    by (simp add: FLEET_CONFIG_def)
  have m: "?u \<in> set FLEET_CONFIG"
    by (simp add: FLEET_CONFIG_def)
  have c: "get_reading_cursor (device_id ?u) ?s
             = Inr (0, normal_row, ?s\<lparr>unit_indices := (unit_indices ?s)(''FREEZER_002'' \<mapsto> 1)\<rparr>)"
    using fleet_state_cursor [OF m, of 0 "[normal_row, fault_row]"] i by simp
  have a: "run_unit ?u (\<lambda>n. 0) (\<lambda>n. RequestException) ?s
     = Inr (Sent (fst (get_reading_synth ?u 0 normal_row (\<lambda>n. 0))) False,
            snd (get_reading_synth ?u 0 normal_row (\<lambda>n. 0)),
            (\<lambda>n. RequestException),
            ?s\<lparr>unit_indices := (unit_indices ?s)(''FREEZER_002'' \<mapsto> 1)\<rparr>)"
    using run_unit_of_cursor [OF c, of "\<lambda>n. 0" "\<lambda>n. RequestException"]
    by (simp add: send_reading_def)
  have "\<exists>ev2 nt2'. run_unit ?u (\<lambda>n. 0) (\<lambda>n. Response 200) ?s
     = Inr (ev2, snd (get_reading_synth ?u 0 normal_row (\<lambda>n. 0)), nt2',
            ?s\<lparr>unit_indices := (unit_indices ?s)(''FREEZER_002'' \<mapsto> 1)\<rparr>)"
    using run_unit_frame [of ?u "\<lambda>n. 0" "\<lambda>n. RequestException" ?s _ _ _ _ "\<lambda>n. Response 200",
        THEN conjunct1, THEN mp, OF a]
    by blast
  then show ?thesis
    using a by blast
qed

lemma synth_device_id: "r_device_id (fst (get_reading_synth u idx row g)) = device_id u"
  by (simp add: get_reading_synth_def apply_personality_def finish_reading_def split_def
      Let_def base_reading_def)

lemma ready_unit_step:
  assumes "get_reading_cursor dev s = Inr (k, r, s')" and "ready_unit s v"
  shows "ready_unit s' v"
proof -
  have f: "s' = s\<lparr>unit_indices := (unit_indices s)(dev \<mapsto> k + 1)\<rparr>"
    by (rule cursor_frame [OF assms(1)])
  obtain dat i where d: "unit_data s (device_id v) = Some dat" and ne: "dat \<noteq> []"
    and x: "unit_indices s (device_id v) = Some i" and i: "0 \<le> i"
    using assms(2) by (auto simp: ready_unit_def split: option.splits)
  show ?thesis
  proof (cases "device_id v = dev")
    case True
    have "get_reading_cursor dev s =
           Inr (if int (length dat) \<le> i then 0 else i,
                dat ! nat (if int (length dat) \<le> i then 0 else i),
                s\<lparr>unit_indices := (unit_indices s)
                     (dev \<mapsto> (if int (length dat) \<le> i then 0 else i) + 1)\<rparr>)"
      using cursor_step [of s dev dat i] d ne x i True by simp
    then have "k = (if int (length dat) \<le> i then 0 else i)"
      using assms(1) by simp
    then have "0 \<le> k + 1"
      using i by simp
    then show ?thesis
      using d ne True by (simp add: f ready_unit_def)
  next
    case False
    then show ?thesis
      using d ne x i by (simp add: f ready_unit_def)
  qed
qed

lemma ready_unit_cursor:
  assumes "ready_unit s u"
  shows "\<exists>k r s'. get_reading_cursor (device_id u) s = Inr (k, r, s')"
proof -
  obtain dat i where "unit_data s (device_id u) = Some dat" "dat \<noteq> []"
    "unit_indices s (device_id u) = Some i" "0 \<le> i"
    using assms by (auto simp: ready_unit_def split: option.splits)
  then show ?thesis
    using cursor_step by blast
qed

lemma run_units_ready:
  assumes "list_all (ready_unit s) us"
  shows "\<exists>rds oks g' nt' s'.
           run_units us g nt s = Inr (map (\<lambda>(rd, ok). Sent rd ok) (zip rds oks), g', nt', s') \<and>
           length rds = length us \<and> length oks = length us \<and>
           map r_device_id rds = map device_id us"
  using assms
proof (induction us arbitrary: g nt s)
  case Nil
  have "run_units [] g nt s = Inr (map (\<lambda>(rd, ok). Sent rd ok) (zip [] []), g, nt, s)"
    by simp
  then show ?case
    by (metis length_0_conv list.simps(8))
next
  case (Cons u us)
  have ru: "ready_unit s u" and rest: "list_all (ready_unit s) us"
    using Cons.prems by simp_all
  obtain k r s1 where c: "get_reading_cursor (device_id u) s = Inr (k, r, s1)"
    using ready_unit_cursor [OF ru] by blast
  let ?rd = "fst (get_reading_synth u k r g)"
  let ?ok = "fst (send_reading ?rd nt)"
  let ?g1 = "snd (get_reading_synth u k r g)"
  have a: "run_unit u g nt s = Inr (Sent ?rd ?ok, ?g1, (\<lambda>n. nt (Suc n)), s1)"
    by (rule run_unit_of_cursor [OF c])
  have "list_all (ready_unit s1) us"
    using rest ready_unit_step [OF c] by (simp add: list_all_iff)
  then obtain rds oks g' nt' s' where
    b: "run_units us ?g1 (\<lambda>n. nt (Suc n)) s1
          = Inr (map (\<lambda>(rd, ok). Sent rd ok) (zip rds oks), g', nt', s')"
    and l: "length rds = length us" "length oks = length us"
    and ids: "map r_device_id rds = map device_id us"
    using Cons.IH by blast
  have "run_units (u # us) g nt s
          = Inr (map (\<lambda>(rd, ok). Sent rd ok) (zip (?rd # rds) (?ok # oks)), g', nt', s')"
    by (simp add: a b)
  moreover have "length (?rd # rds) = length (u # us)" "length (?ok # oks) = length (u # us)"
    using l by simp_all
  moreover have "map r_device_id (?rd # rds) = map device_id (u # us)"
    using ids by (simp add: synth_device_id)
  ultimately show ?case
    by blast
qed











end
